theory Spec2Isabelle
  imports Main
begin

section \<open>Errors raised by the notebooks' library calls\<close>

text \<open>
  The notebooks contain no handlers, so a raise inside a cell ends the cell. Each raise
  that the modelled lines can reach is a value of this type.
\<close>

datatype error =
    AttributeError    \<comment> \<open>pandas: \<open>data_tab.p1239_i0\<close> when the frame has no such column\<close>
  | ValueError        \<comment> \<open>pandas: \<open>data_tab.columns = [...]\<close> with the wrong number of names\<close>
  | SampleError       \<comment> \<open>R: a sample without replacement larger than the population\<close>

section \<open>G103: the binary split of the smoking column\<close>

text \<open>
  \<^verbatim>\<open>
  data_tab = pheno_data.toPandas()
  data_tab.p1239_i0[data_tab.p1239_i0 != 'No'] = 'true'
  data_tab.p1239_i0[data_tab.p1239_i0 == 'No'] = 'false'
  data_tab.columns = ['eid', 'smoking']
  \<close>
  A pandas frame is a list of named columns, in order. A cell of a column holds a string,
  an integer (the participant identifiers) or nothing (a participant without an answer).
\<close>

datatype cell = Str string | Num int | Missing

type_synonym series = "cell list"
type_synonym frame = "(string \<times> series) list"

text \<open>
  Elementwise comparison of a column with a string: \<open>!=\<close> is true for every cell that is
  not that string (a missing cell included), \<open>==\<close> is true for that string only.
\<close>

definition series_ne :: "series \<Rightarrow> string \<Rightarrow> bool list" where
  "series_ne col s = map (\<lambda>c. c \<noteq> Str s) col"

definition series_eq :: "series \<Rightarrow> string \<Rightarrow> bool list" where
  "series_eq col s = map (\<lambda>c. c = Str s) col"

text \<open>\<open>col[mask] = v\<close>: the cells where the mask is true are overwritten with \<open>v\<close>.\<close>

definition setitem_mask :: "series \<Rightarrow> bool list \<Rightarrow> string \<Rightarrow> series" where
  "setitem_mask col msk v = map (\<lambda>(c, b). if b then Str v else c) (zip col msk)"

text \<open>
  The two assignments on the column. The second mask is computed on the column as the
  first assignment left it.
\<close>

definition binary_split :: "series \<Rightarrow> series" where
  "binary_split p1239_i0 =
     (let c1 = setitem_mask p1239_i0 (series_ne p1239_i0 ''No'') ''true'';
          c2 = setitem_mask c1 (series_eq c1 ''No'') ''false''
      in c2)"

text \<open>
  The column is reached as an attribute of the frame and written in place (the notebook
  runs on a pandas without copy-on-write), so the frame holds the new column afterwards.
\<close>

definition set_col :: "frame \<Rightarrow> string \<Rightarrow> series \<Rightarrow> frame" where
  "set_col tab name col = map (\<lambda>(n, c). if n = name then (n, col) else (n, c)) tab"

text \<open>\<open>tab.columns = names\<close>: the columns are renamed by position.\<close>

definition set_columns :: "frame \<Rightarrow> string list \<Rightarrow> error + frame" where
  "set_columns tab names =
     (if length names \<noteq> length tab then Inl ValueError
      else Inr (zip names (map snd tab)))"

definition smoking_bool :: "frame \<Rightarrow> error + frame" where
  "smoking_bool data_tab =
     (case map_of data_tab ''p1239_i0'' of
        None \<Rightarrow> Inl AttributeError
      | Some c0 \<Rightarrow>
          set_columns (set_col data_tab ''p1239_i0'' (binary_split c0)) [''eid'', ''smoking''])"

section \<open>G204: the train/test split of the genotype rows\<close>

text \<open>
  Both notebooks of G204 split the rows of the genotype matrix \<open>G\<close> the same way:
  \<^verbatim>\<open>
  ind.train <- sample(nrow(G), 2000)             # height
  ind.train <- sample(nrow(G), nrow(G)*0.8)      # hypertension
  ind.test <- setdiff(rows_along(G), ind.train)
  \<close>
  Row indices are the numbers \<open>1, ..., nrow(G)\<close>. The two notebooks differ in the
  sample size only, which is a parameter \<open>sz\<close> of the model.
\<close>

definition rows_along :: "nat \<Rightarrow> nat list" where
  "rows_along nrowG = [1..<Suc nrowG]"

text \<open>
  R's \<open>unique\<close> keeps the first occurrence of each value, in order; the values already
  met are carried along.
\<close>

fun unique_from :: "nat list \<Rightarrow> nat list \<Rightarrow> nat list" where
  "unique_from seen [] = []"
| "unique_from seen (x # xs) =
     (if x \<in> set seen then unique_from seen xs else x # unique_from (x # seen) xs)"

definition unique :: "nat list \<Rightarrow> nat list" where
  "unique xs = unique_from [] xs"

text \<open>R's \<open>setdiff(x, y)\<close> is \<open>unique(x[match(x, y, 0L) == 0L])\<close>.\<close>

definition setdiff :: "nat list \<Rightarrow> nat list \<Rightarrow> nat list" where
  "setdiff x y = unique (filter (\<lambda>v. v \<notin> set y) x)"

text \<open>
  \<open>sample.int(n, sz)\<close> draws without replacement. The outcome of the random draw is an
  input of the model; what R guarantees about it is \<open>sampled\<close>: \<open>sz\<close> different indices,
  each among \<open>1, ..., n\<close>. A draw larger than the population is an error.
\<close>

definition sampled :: "nat \<Rightarrow> nat \<Rightarrow> nat list \<Rightarrow> bool" where
  "sampled n sz draw \<longleftrightarrow>
     length draw = sz \<and> distinct draw \<and> (\<forall>i \<in> set draw. 1 \<le> i \<and> i \<le> n)"

definition sample_int :: "nat \<Rightarrow> nat \<Rightarrow> nat list \<Rightarrow> error + nat list" where
  "sample_int n sz draw = (if n < sz then Inl SampleError else Inr draw)"

text \<open>
  \<open>sample(x, sz)\<close> with a single number \<open>x\<close>: from 1 on, the population is
  \<open>1, ..., x\<close>; below 1, the population is the one-element vector \<open>x\<close> itself, indexed
  by the draw.
\<close>

definition sample :: "nat \<Rightarrow> nat \<Rightarrow> nat list \<Rightarrow> error + nat list" where
  "sample x sz draw =
     (if 1 \<le> x then sample_int x sz draw
      else (case sample_int 1 sz draw of
              Inl e \<Rightarrow> Inl e
            | Inr ix \<Rightarrow> Inr (map (\<lambda>i. x) ix)))"

definition train_test :: "nat \<Rightarrow> nat \<Rightarrow> nat list \<Rightarrow> error + (nat list \<times> nat list)" where
  "train_test nrowG sz draw =
     (case sample nrowG sz draw of
        Inl e \<Rightarrow> Inl e
      | Inr ind_train \<Rightarrow> Inr (ind_train, setdiff (rows_along nrowG) ind_train))"

section \<open>G204, hypertension: the analysis sample and its label\<close>

text \<open>
  \<^verbatim>\<open>
  smpl <- rbind(
      pheno %>%
          filter(medical_records & self_reported & blood_pressure_cutoff),
      pheno %>%
          filter(!medical_records & !self_reported & !blood_pressure_cutoff) %>%
            sample_n(10000)
  )
  ...
  y01.train = as.numeric(pca$medical_records & pca$self_reported
                         & pca$blood_pressure_cutoff)[ind.train]
  \<close>
  A row of the phenotype table carries the participant identifier and the three
  indicators; the record is extensible, so a row may carry any further columns. An
  indicator is a logical of R: true, false or \<open>NA\<close> (\<open>None\<close>).
\<close>

record pheno_row =
  eid :: int
  medical_records :: "bool option"
  self_reported :: "bool option"
  blood_pressure_cutoff :: "bool option"

text \<open>R's \<open>&\<close> and \<open>!\<close> on logicals: false wins over \<open>NA\<close>, \<open>NA\<close> wins over true.\<close>

fun r_and :: "bool option \<Rightarrow> bool option \<Rightarrow> bool option" where
  "r_and (Some False) _ = Some False"
| "r_and _ (Some False) = Some False"
| "r_and (Some True) (Some True) = Some True"
| "r_and _ _ = None"

fun r_not :: "bool option \<Rightarrow> bool option" where
  "r_not None = None"
| "r_not (Some b) = Some (\<not> b)"

fun as_numeric :: "bool option \<Rightarrow> int option" where
  "as_numeric None = None"
| "as_numeric (Some True) = Some 1"
| "as_numeric (Some False) = Some 0"

text \<open>\<open>filter\<close> of dplyr keeps the rows where the condition is true; \<open>NA\<close> drops the row.\<close>

definition dplyr_filter :: "('r \<Rightarrow> bool option) \<Rightarrow> 'r list \<Rightarrow> 'r list" where
  "dplyr_filter cond tbl = filter (\<lambda>r. cond r = Some True) tbl"

text \<open>
  \<open>sample_n(tbl, sz)\<close> draws \<open>sz\<close> rows without replacement and fails on a table with
  fewer rows. The random draw is an input: the positions of the chosen rows, counted
  from 0, which dplyr guarantees to be \<open>sz\<close> different positions of the table.
\<close>

definition sampled_rows :: "nat \<Rightarrow> nat \<Rightarrow> nat list \<Rightarrow> bool" where
  "sampled_rows n sz draw \<longleftrightarrow>
     length draw = sz \<and> distinct draw \<and> (\<forall>i \<in> set draw. i < n)"

definition sample_n :: "'r list \<Rightarrow> nat \<Rightarrow> nat list \<Rightarrow> error + 'r list" where
  "sample_n tbl sz draw =
     (if length tbl < sz then Inl SampleError else Inr (map (\<lambda>i. tbl ! i) draw))"

text \<open>The two filter conditions of the notebook and the label expression.\<close>

definition hypertensive :: "'a pheno_row_scheme \<Rightarrow> bool option" where
  "hypertensive r =
     r_and (r_and (medical_records r) (self_reported r)) (blood_pressure_cutoff r)"

definition unaffected :: "'a pheno_row_scheme \<Rightarrow> bool option" where
  "unaffected r =
     r_and (r_and (r_not (medical_records r)) (r_not (self_reported r)))
       (r_not (blood_pressure_cutoff r))"

definition smpl ::
  "'a pheno_row_scheme list \<Rightarrow> nat list \<Rightarrow> error + 'a pheno_row_scheme list" where
  "smpl pheno draw =
     (case sample_n (dplyr_filter unaffected pheno) 10000 draw of
        Inl e \<Rightarrow> Inl e
      | Inr controls \<Rightarrow> Inr (dplyr_filter hypertensive pheno @ controls))"

definition y01 :: "'a pheno_row_scheme \<Rightarrow> int option" where
  "y01 r = as_numeric (hypertensive r)"

text \<open>A case has all three indicators true, a control has all three false.\<close>

definition is_case :: "'a pheno_row_scheme \<Rightarrow> bool" where
  "is_case r \<longleftrightarrow>
     medical_records r = Some True \<and> self_reported r = Some True \<and>
     blood_pressure_cutoff r = Some True"

definition is_control :: "'a pheno_row_scheme \<Rightarrow> bool" where
  "is_control r \<longleftrightarrow>
     medical_records r = Some False \<and> self_reported r = Some False \<and>
     blood_pressure_cutoff r = Some False"

section \<open>G103: properties of the binary split\<close>

lemma setitem_mask_map:
  "setitem_mask col (map P col) v = map (\<lambda>c. if P c then Str v else c) col"
  by (induction col) (simp_all add: setitem_mask_def)

lemma binary_split_map:
  "binary_split col = map (\<lambda>c. if c = Str ''No'' then Str ''false'' else Str ''true'') col"
  by (simp add: binary_split_def Let_def series_ne_def series_eq_def setitem_mask_map)

lemma smoking_bool_frame:
  assumes "map fst data_tab = [''eid'', ''p1239_i0'']"
  shows "smoking_bool data_tab =
           Inr [(''eid'', snd (data_tab ! 0)), (''smoking'', binary_split (snd (data_tab ! 1)))]"
proof -
  from assms obtain e c where tab: "data_tab = [(''eid'', e), (''p1239_i0'', c)]"
    by (cases data_tab; cases "tl data_tab") auto
  show ?thesis
    by (simp add: tab smoking_bool_def set_col_def set_columns_def)
qed

text \<open>
  Claim C2. The frame retrieved for the field list \<open>[eid, p1239_i0]\<close> has those two
  columns. After the two assignments and the renaming, the frame has a column
  \<open>smoking\<close> as long as the original one; each of its entries is the string \<open>true\<close> or
  the string \<open>false\<close>, it is \<open>false\<close> exactly where the original value was \<open>No\<close> and
  \<open>true\<close> everywhere else.
\<close>

theorem smoking_column_true_false:
  assumes "data_tab = [(''eid'', eids), (''p1239_i0'', col)]"
  shows "\<exists>out smoking.
           smoking_bool data_tab = Inr out \<and>
           map_of out ''smoking'' = Some smoking \<and>
           length smoking = length col \<and>
           (\<forall>i < length col.
              (smoking ! i = Str ''true'' \<or> smoking ! i = Str ''false'') \<and>
              (smoking ! i = Str ''false'') = (col ! i = Str ''No'') \<and>
              (smoking ! i = Str ''true'') = (col ! i \<noteq> Str ''No''))"
proof -
  have "smoking_bool data_tab = Inr [(''eid'', eids), (''smoking'', binary_split col)]"
    using assms by (simp add: smoking_bool_frame)
  moreover have "length (binary_split col) = length col"
    by (simp add: binary_split_map)
  moreover have "\<forall>i < length col.
      (binary_split col ! i = Str ''true'' \<or> binary_split col ! i = Str ''false'') \<and>
      (binary_split col ! i = Str ''false'') = (col ! i = Str ''No'') \<and>
      (binary_split col ! i = Str ''true'') = (col ! i \<noteq> Str ''No'')"
    by (simp add: binary_split_map)
  ultimately show ?thesis by simp
qed

theorem smoking_column_true_false_witness:
  "\<exists>out smoking.
     smoking_bool [(''eid'', [Num 1, Num 2, Num 3]),
                   (''p1239_i0'', [Str ''No'', Str ''Only occasionally'', Missing])] = Inr out \<and>
     map_of out ''smoking'' = Some smoking \<and>
     smoking ! 0 = Str ''false'' \<and> smoking ! 1 = Str ''true'' \<and> smoking ! 2 = Str ''true''"
proof -
  let ?col = "[Str ''No'', Str ''Only occasionally'', Missing]"
  let ?tab = "[(''eid'', [Num 1, Num 2, Num 3]), (''p1239_i0'', ?col)]"
  from smoking_column_true_false [of ?tab "[Num 1, Num 2, Num 3]" ?col, OF refl]
  obtain out smoking where
    run: "smoking_bool ?tab = Inr out" and
    col: "map_of out ''smoking'' = Some smoking" and
    each: "\<forall>i < length ?col.
             (smoking ! i = Str ''true'' \<or> smoking ! i = Str ''false'') \<and>
             (smoking ! i = Str ''false'') = (?col ! i = Str ''No'') \<and>
             (smoking ! i = Str ''true'') = (?col ! i \<noteq> Str ''No'')"
    by blast
  have "(0::nat) < length ?col" "(1::nat) < length ?col" "(2::nat) < length ?col"
    by simp_all
  with each have "smoking ! 0 = Str ''false''" "smoking ! 1 = Str ''true''"
    "smoking ! 2 = Str ''true''"
    by (metis nth_Cons_0, simp, simp)
  with run col show ?thesis by blast
qed

section \<open>G204: properties of the train/test split\<close>

lemma set_unique_from: "set (unique_from seen xs) = set xs - set seen"
  by (induction xs arbitrary: seen) auto

lemma distinct_unique_from: "distinct (unique_from seen xs)"
  by (induction xs arbitrary: seen) (auto simp: set_unique_from)

lemma set_setdiff: "set (setdiff x y) = set x - set y"
  by (auto simp: setdiff_def unique_def set_unique_from)

lemma distinct_setdiff: "distinct (setdiff x y)"
  by (simp add: setdiff_def unique_def distinct_unique_from)

lemma set_rows_along: "set (rows_along n) = {1..n}"
  by (auto simp: rows_along_def)

lemma length_setdiff_rows:
  assumes "distinct ys" "set ys \<subseteq> {1..n}"
  shows "length (setdiff (rows_along n) ys) = n - length ys"
proof -
  have "length (setdiff (rows_along n) ys) = card (set (setdiff (rows_along n) ys))"
    by (simp add: distinct_card distinct_setdiff)
  also have "\<dots> = card ({1..n} - set ys)"
    by (simp add: set_setdiff set_rows_along)
  also have "\<dots> = card {1..n} - card (set ys)"
    using assms(2) by (simp add: card_Diff_subset)
  also have "\<dots> = n - length ys"
    using assms(1) by (simp add: distinct_card)
  finally show ?thesis .
qed

lemma sampled_le:
  assumes "sampled n sz draw"
  shows "sz \<le> n"
proof -
  from assms have sub: "set draw \<subseteq> {1..n}" and dist: "distinct draw"
    and len: "length draw = sz"
    by (auto simp: sampled_def)
  from dist len have "sz = card (set draw)"
    by (simp add: distinct_card)
  also from sub have "\<dots> \<le> card {1..n}"
    by (intro card_mono) simp_all
  finally show ?thesis by simp
qed

lemma sample_sampled:
  assumes "sampled n sz draw"
  shows "sample n sz draw = Inr draw"
proof (cases "1 \<le> n")
  case True
  with sampled_le [OF assms] show ?thesis
    by (simp add: sample_def sample_int_def)
next
  case False
  with sampled_le [OF assms] have "sz = 0"
    by simp
  with assms have "draw = []"
    by (simp add: sampled_def)
  with False \<open>sz = 0\<close> show ?thesis
    by (simp add: sample_def sample_int_def)
qed

lemma train_test_returns:
  "sampled nrowG sz draw \<Longrightarrow>
   train_test nrowG sz draw = Inr (draw, setdiff (rows_along nrowG) draw)"
  by (simp add: train_test_def sample_sampled)

text \<open>
  Claim C9. When the split returns, with \<open>ind.train\<close> drawn without replacement from the
  row indices of \<open>G\<close>, the two index sets are disjoint and their union is all rows of
  \<open>G\<close>: every row index belongs to exactly one of \<open>ind.train\<close> and \<open>ind.test\<close>. The test
  indices are pairwise different and the two lists together have \<open>nrow(G)\<close> entries.
  The statement holds for every sample size, so for both notebooks.
\<close>

theorem train_test_partition:
  assumes "sampled nrowG sz draw"
    and "train_test nrowG sz draw = Inr (ind_train, ind_test)"
  shows "set ind_train \<inter> set ind_test = {} \<and>
         set ind_train \<union> set ind_test = {1..nrowG} \<and>
         (\<forall>i \<in> {1..nrowG}. (i \<in> set ind_train) \<noteq> (i \<in> set ind_test)) \<and>
         distinct ind_test \<and> length ind_train + length ind_test = nrowG"
proof -
  from assms(1) have le: "sz \<le> nrowG"
    by (rule sampled_le)
  from assms have tr: "ind_train = draw"
    and te: "ind_test = setdiff (rows_along nrowG) draw"
    by (auto simp: train_test_returns)
  from assms(1) have sub: "set draw \<subseteq> {1..nrowG}" and dist: "distinct draw"
    and len: "length draw = sz"
    by (auto simp: sampled_def)
  have set_te: "set ind_test = {1..nrowG} - set draw"
    by (simp add: te set_setdiff set_rows_along)
  have "set ind_train \<inter> set ind_test = {}"
    by (auto simp: tr set_te)
  moreover have "set ind_train \<union> set ind_test = {1..nrowG}"
    using sub by (auto simp: tr set_te)
  moreover have "\<forall>i \<in> {1..nrowG}. (i \<in> set ind_train) \<noteq> (i \<in> set ind_test)"
    by (auto simp: tr set_te)
  moreover have "distinct ind_test"
    by (simp add: te distinct_setdiff)
  moreover have "length ind_train + length ind_test = nrowG"
    using le len by (simp add: tr te length_setdiff_rows [OF dist sub])
  ultimately show ?thesis by blast
qed

theorem train_test_partition_witness:
  "sampled 5 3 [4, 2, 5] \<and>
   train_test 5 3 [4, 2, 5] = Inr ([4, 2, 5], [1, 3]) \<and>
   set [4, 2, 5] \<inter> set [1, 3::nat] = {} \<and>
   set [4, 2, 5] \<union> set [1, 3] = {1..5::nat} \<and>
   (2 \<in> set [4, 2, 5::nat]) \<noteq> (2 \<in> set [1, 3::nat]) \<and>
   (3 \<in> set [4, 2, 5::nat]) \<noteq> (3 \<in> set [1, 3::nat])"
proof -
  have s: "sampled 5 3 [4, 2, 5]"
    by (simp add: sampled_def)
  have r: "train_test 5 3 [4, 2, 5] = Inr ([4, 2, 5], [1, 3])"
    by (simp add: train_test_def sample_def sample_int_def setdiff_def unique_def
        rows_along_def upt_rec)
  note p = train_test_partition [OF s r]
  note disj = p [THEN conjunct1]
  note cover = p [THEN conjunct2, THEN conjunct1]
  note one = p [THEN conjunct2, THEN conjunct2, THEN conjunct1]
  have "(2::nat) \<in> {1..5}"
    by simp
  then have two: "(2 \<in> set [4, 2, 5::nat]) \<noteq> (2 \<in> set [1, 3::nat])"
    by (rule one [THEN bspec])
  have "(3::nat) \<in> {1..5}"
    by simp
  then have three: "(3 \<in> set [4, 2, 5::nat]) \<noteq> (3 \<in> set [1, 3::nat])"
    by (rule one [THEN bspec])
  show ?thesis
    by (intro conjI) (rule s r disj cover two three)+
qed

section \<open>G204, hypertension: properties of the analysis sample\<close>

lemma r_and_True: "r_and a b = Some True \<longleftrightarrow> a = Some True \<and> b = Some True"
  by (cases "(a, b)" rule: r_and.cases) auto

lemma r_not_True: "r_not a = Some True \<longleftrightarrow> a = Some False"
  by (cases a) auto

lemma hypertensive_True: "hypertensive r = Some True \<longleftrightarrow> is_case r"
  by (simp add: hypertensive_def is_case_def r_and_True)

lemma unaffected_True: "unaffected r = Some True \<longleftrightarrow> is_control r"
  by (simp add: unaffected_def is_control_def r_and_True r_not_True)

lemma y01_case: "is_case r \<Longrightarrow> y01 r = Some 1"
  by (simp add: y01_def hypertensive_def is_case_def)

lemma y01_control: "is_control r \<Longrightarrow> y01 r = Some 0"
  by (simp add: y01_def hypertensive_def is_control_def)

lemma case_not_control: "is_case r \<Longrightarrow> \<not> is_control r"
  by (simp add: is_case_def is_control_def)

lemma smpl_returns:
  "10000 \<le> length (dplyr_filter unaffected pheno) \<Longrightarrow> \<exists>rows. smpl pheno draw = Inr rows"
  by (simp add: smpl_def sample_n_def)

lemma smpl_rows:
  assumes "sampled_rows (length (dplyr_filter unaffected pheno)) 10000 draw"
    and "smpl pheno draw = Inr rows"
    and "r \<in> set rows"
  shows "is_case r \<or> is_control r"
proof -
  let ?ctl = "dplyr_filter unaffected pheno"
  from assms(2) have rows: "rows = dplyr_filter hypertensive pheno @ map (\<lambda>i. ?ctl ! i) draw"
    by (auto simp: smpl_def sample_n_def split: if_splits)
  from assms(3) consider "r \<in> set (dplyr_filter hypertensive pheno)"
    | i where "i \<in> set draw" "r = ?ctl ! i"
    by (auto simp: rows)
  then show ?thesis
  proof cases
    case 1
    then show ?thesis by (simp add: dplyr_filter_def hypertensive_True)
  next
    case 2
    with assms(1) have "r \<in> set ?ctl"
      by (simp add: sampled_rows_def)
    then show ?thesis by (simp add: dplyr_filter_def unaffected_True)
  qed
qed

text \<open>
  Claim C10. Every row of the analysis sample \<open>smpl\<close> has all three indicators true (a
  case) or all three false (a control); a row with a mixed or missing indicator is never
  in the sample. On the rows of the sample the label
  \<open>as.numeric(medical_records & self_reported & blood_pressure_cutoff)\<close> is 1 exactly on
  the cases and 0 exactly on the controls.
\<close>

theorem smpl_cases_or_controls:
  assumes "sampled_rows (length (dplyr_filter unaffected pheno)) 10000 draw"
    and "smpl pheno draw = Inr rows"
  shows "\<forall>r \<in> set rows.
           (is_case r \<or> is_control r) \<and>
           (y01 r = Some 1 \<longleftrightarrow> is_case r) \<and>
           (y01 r = Some 0 \<longleftrightarrow> is_control r)"
proof
  fix r assume "r \<in> set rows"
  with assms have "is_case r \<or> is_control r" by (rule smpl_rows)
  then show "(is_case r \<or> is_control r) \<and>
           (y01 r = Some 1 \<longleftrightarrow> is_case r) \<and>
           (y01 r = Some 0 \<longleftrightarrow> is_control r)"
    using y01_case [of r] y01_control [of r] case_not_control [of r] by auto
qed

text \<open>
  The witness: a table of one case, one participant with a mixed pattern and 10000
  controls, of which the draw takes all. The sample is the case and the controls.
\<close>

theorem smpl_cases_or_controls_witness:
  "(let k = \<lparr>eid = 1, medical_records = Some True, self_reported = Some True,
               blood_pressure_cutoff = Some True\<rparr>;
        m = \<lparr>eid = 2, medical_records = Some True, self_reported = Some False,
               blood_pressure_cutoff = Some True\<rparr>;
        c = \<lparr>eid = 3, medical_records = Some False, self_reported = Some False,
               blood_pressure_cutoff = Some False\<rparr>;
        pheno = k # m # replicate 10000 c
    in sampled_rows (length (dplyr_filter unaffected pheno)) 10000 [0..<10000] \<and>
       smpl pheno [0..<10000] = Inr (k # replicate 10000 c) \<and>
       (is_case k \<or> is_control k) \<and>
       (y01 k = Some 1) = is_case k \<and> (y01 k = Some 0) = is_control k \<and>
       (is_case c \<or> is_control c) \<and>
       (y01 c = Some 1) = is_case c \<and> (y01 c = Some 0) = is_control c)"
proof -
  let ?k = "\<lparr>eid = 1, medical_records = Some True, self_reported = Some True,
              blood_pressure_cutoff = Some True\<rparr>"
  let ?m = "\<lparr>eid = 2, medical_records = Some True, self_reported = Some False,
              blood_pressure_cutoff = Some True\<rparr>"
  let ?c = "\<lparr>eid = 3, medical_records = Some False, self_reported = Some False,
              blood_pressure_cutoff = Some False\<rparr>"
  have u: "unaffected ?c = Some True" "unaffected ?k = Some False"
    "unaffected ?m = Some False"
    by (simp_all add: unaffected_def)
  have h: "hypertensive ?k = Some True" "hypertensive ?m = Some False"
    "hypertensive ?c = Some False"
    by (simp_all add: hypertensive_def)
  have ctl: "dplyr_filter unaffected (?k # ?m # replicate 10000 ?c) = replicate 10000 ?c"
    by (simp add: dplyr_filter_def u filter_replicate)
  have cas: "dplyr_filter hypertensive (?k # ?m # replicate 10000 ?c) = [?k]"
    by (simp add: dplyr_filter_def h filter_replicate)
  have "map (\<lambda>i. replicate 10000 ?c ! i) [0..<length (replicate 10000 ?c)] = replicate 10000 ?c"
    by (rule map_nth)
  then have m: "map (\<lambda>i. replicate 10000 ?c ! i) [0..<10000] = replicate 10000 ?c"
    by simp
  have s: "sampled_rows (length (dplyr_filter unaffected (?k # ?m # replicate 10000 ?c)))
             10000 [0..<10000]"
    by (simp add: ctl sampled_rows_def)
  have r: "smpl (?k # ?m # replicate 10000 ?c) [0..<10000] = Inr (?k # replicate 10000 ?c)"
    by (simp add: smpl_def sample_n_def ctl cas m)
  note all = smpl_cases_or_controls [OF s r]
  have "?k \<in> set (?k # replicate 10000 ?c)"
    by simp
  then have k: "(is_case ?k \<or> is_control ?k) \<and>
      (y01 ?k = Some 1) = is_case ?k \<and> (y01 ?k = Some 0) = is_control ?k"
    by (rule all [THEN bspec])
  have "?c \<in> set (?k # replicate 10000 ?c)"
    by simp
  then have c: "(is_case ?c \<or> is_control ?c) \<and>
      (y01 ?c = Some 1) = is_case ?c \<and> (y01 ?c = Some 0) = is_control ?c"
    by (rule all [THEN bspec])
  show ?thesis
    unfolding Let_def by (intro conjI s r k [THEN conjunct1] k [THEN conjunct2, THEN conjunct1]
      k [THEN conjunct2, THEN conjunct2] c [THEN conjunct1] c [THEN conjunct2, THEN conjunct1]
      c [THEN conjunct2, THEN conjunct2])
qed

end
